theory Spec2Isabelle
  imports Main
begin

section \<open>The process supervisor of the LibreOffice MCP server (main.py)\<close>

text \<open>
  The supervisor launches a headless office process and a helper process, runs the
  protocol server, and terminates what it launched on exit. Everything it does is an
  effect on the operating system, so the embedding threads a state that holds the two
  module-level handles and a trace of the calls made, and it asks a \<open>world\<close> for the
  answer of every call that the operating system decides. Answers that can change while
  the supervisor runs (ports, processes) are functions of the trace so far; the platform
  name, the filesystem and the interpreter's own paths are fixed for a run.
\<close>

subsection \<open>Exceptions, events, state and world\<close>

text \<open>
  The exceptions that main.py raises, catches or lets through. \<open>KeyboardInterrupt\<close> and
  \<open>SystemExit\<close> derive from BaseException only; the others derive from Exception and
  carry the text that \<open>str(e)\<close> gives.
\<close>

datatype exc =
    OSError string
  | FileNotFoundError string
  | TimeoutExpired string
  | OtherException string
  | KeyboardInterrupt
  | SystemExit int

fun is_Exception :: "exc \<Rightarrow> bool" where
  "is_Exception KeyboardInterrupt = False"
| "is_Exception (SystemExit n) = False"
| "is_Exception e = True"

fun exc_str :: "exc \<Rightarrow> string" where
  "exc_str (OSError m) = m"
| "exc_str (FileNotFoundError m) = m"
| "exc_str (TimeoutExpired m) = m"
| "exc_str (OtherException m) = m"
| "exc_str KeyboardInterrupt = []"
| "exc_str (SystemExit n) = []"

text \<open>A handle stands for one \<open>subprocess.Popen\<close> object.\<close>

type_synonym handle = nat

text \<open>The calls the supervisor makes, in the order it makes them.\<close>

datatype event =
    Print string
  | ConnectEx int
  | PathExists string
  | Popen "string list"
  | Sleep nat
  | Poll handle
  | Terminate handle
  | Wait handle nat
  | Kill handle
  | Run "string list"

datatype signum = SIGINT | SIGTERM

datatype handler = DefaultHandler | SignalHandler

datatype callback = CleanupProcesses

record state =
  office_process :: "handle option"
  helper_process :: "handle option"
  atexit_callbacks :: "callback list"
  signal_handlers :: "signum \<Rightarrow> handler"
  trace :: "event list"

record world =
  platform_system :: string
  path_exists :: "string \<Rightarrow> bool"
  sys_executable :: string
  sys_argv0 :: string
  module_file :: string
  os_getcwd :: string
  path_dirname :: "string \<Rightarrow> string"
  path_join :: "string \<Rightarrow> string \<Rightarrow> string"
  connect_ex :: "event list \<Rightarrow> int \<Rightarrow> exc + int"
  popen :: "event list \<Rightarrow> string list \<Rightarrow> exc + handle"
  sleep :: "event list \<Rightarrow> nat \<Rightarrow> exc option"
  poll :: "event list \<Rightarrow> handle \<Rightarrow> int option"
  wait :: "event list \<Rightarrow> handle \<Rightarrow> nat \<Rightarrow> exc + int"
  run :: "event list \<Rightarrow> string list \<Rightarrow> exc + int"

definition emit :: "event \<Rightarrow> state \<Rightarrow> state" where
  "emit e st = st\<lparr>trace := trace st @ [e]\<rparr>"

text \<open>The module's initial state: both handles are \<open>None\<close> (lines 12-13).\<close>

definition initial_state :: state where
  "initial_state =
     \<lparr>office_process = None, helper_process = None, atexit_callbacks = [],
      signal_handlers = (\<lambda>s. DefaultHandler), trace = []\<rparr>"

subsection \<open>Strings\<close>

definition lower_char :: "char \<Rightarrow> char" where
  "lower_char c =
     (case map_of (zip ''ABCDEFGHIJKLMNOPQRSTUVWXYZ'' ''abcdefghijklmnopqrstuvwxyz'') c of
        None \<Rightarrow> c
      | Some d \<Rightarrow> d)"

definition lower :: "string \<Rightarrow> string" where
  "lower s = map lower_char s"

fun str_nat :: "nat \<Rightarrow> string" where
  "str_nat n =
     (if n < 10 then [''0123456789'' ! n]
      else str_nat (n div 10) @ [''0123456789'' ! (n mod 10)])"

declare str_nat.simps [simp del]

definition str_int :: "int \<Rightarrow> string" where
  "str_int i = (if i < 0 then ''-'' @ str_nat (nat (- i)) else str_nat (nat i))"

definition backslash :: string where
  "backslash = [CHR 0x5C]"

definition newline :: string where
  "newline = [CHR 0x0A]"

subsection \<open>Shutdown\<close>

text \<open>
  The two \<open>if\<close> blocks of \<open>cleanup_processes\<close> (lines 22-28 and 30-36) are the same
  statements, on \<open>helper_process\<close> and on \<open>office_process\<close>: \<open>terminate_block\<close> is that
  block for a handle variable \<open>proc\<close> and its message. \<open>wait(timeout=5)\<close> may raise;
  only \<open>TimeoutExpired\<close> is caught.
\<close>

definition terminate_block :: "world \<Rightarrow> string \<Rightarrow> handle option \<Rightarrow> state \<Rightarrow> (exc + unit) \<times> state" where
  "terminate_block w msg proc st =
     (case proc of
        None \<Rightarrow> (Inr (), st)
      | Some h \<Rightarrow>
          (let alive = (poll w (trace st) h = None);
               st1 = emit (Poll h) st
           in if alive then
                (let st2 = emit (Print msg) st1;
                     st3 = emit (Terminate h) st2;
                     waited = wait w (trace st3) h 5;
                     st4 = emit (Wait h 5) st3
                 in case waited of
                      Inr rc \<Rightarrow> (Inr (), st4)
                    | Inl (TimeoutExpired m) \<Rightarrow> (Inr (), emit (Kill h) st4)
                    | Inl e \<Rightarrow> (Inl e, st4))
              else (Inr (), st1)))"

definition cleanup_processes :: "world \<Rightarrow> state \<Rightarrow> (exc + unit) \<times> state" where
  "cleanup_processes w st =
     (let st1 = emit (Print ''Cleaning up processes...'') st
      in case terminate_block w ''Terminating helper process...'' (helper_process st1) st1 of
           (Inl e, st2) \<Rightarrow> (Inl e, st2)
         | (Inr u, st2) \<Rightarrow>
             terminate_block w ''Terminating office process...'' (office_process st2) st2)"


subsection \<open>Resolving executables\<close>

definition windows_office_paths :: "string list" where
  "windows_office_paths =
     [''C:'' @ backslash @ ''Program Files'' @ backslash @ ''Collabora Office'' @ backslash
        @ ''program'' @ backslash @ ''soffice.exe'',
      ''C:'' @ backslash @ ''Program Files (x86)'' @ backslash @ ''Collabora Office'' @ backslash
        @ ''program'' @ backslash @ ''soffice.exe'',
      ''C:'' @ backslash @ ''Program Files'' @ backslash @ ''LibreOffice'' @ backslash
        @ ''program'' @ backslash @ ''soffice.exe'']"

definition linux_office_paths :: "string list" where
  "linux_office_paths =
     [''/usr/bin/coolwsd'',
      ''/usr/bin/collaboraoffice'',
      ''/opt/collaboraoffice/program/soffice'',
      ''/usr/lib/collaboraoffice/program/soffice'']"

definition windows_python_paths :: "string list" where
  "windows_python_paths =
     [''C:'' @ backslash @ ''Program Files'' @ backslash @ ''Collabora Office'' @ backslash
        @ ''program'' @ backslash @ ''python.exe'',
      ''C:'' @ backslash @ ''Program Files (x86)'' @ backslash @ ''Collabora Office'' @ backslash
        @ ''program'' @ backslash @ ''python.exe'',
      ''C:'' @ backslash @ ''Program Files'' @ backslash @ ''LibreOffice'' @ backslash
        @ ''program'' @ backslash @ ''python.exe'']"

text \<open>
  The loop \<open>for path in possible_paths: if os.path.exists(path): return path\<close> of both
  resolvers; \<open>None\<close> is falling out of the loop.
\<close>

fun for_path_in :: "world \<Rightarrow> string list \<Rightarrow> state \<Rightarrow> string option \<times> state" where
  "for_path_in w [] st = (None, st)"
| "for_path_in w (path # paths) st =
     (let st1 = emit (PathExists path) st
      in if path_exists w path then (Some path, st1) else for_path_in w paths st1)"

text \<open>Lines 71-76 of \<open>get_office_path\<close>: the loop, then the \<open>raise\<close> after it.\<close>

definition first_office_path :: "world \<Rightarrow> string list \<Rightarrow> state \<Rightarrow> (exc + string) \<times> state" where
  "first_office_path w possible_paths st =
     (case for_path_in w possible_paths st of
        (Some path, st1) \<Rightarrow> (Inr path, st1)
      | (None, st1) \<Rightarrow>
          (Inl (FileNotFoundError
             ''Neither Collabora Office nor LibreOffice executable found. Please install either office suite.''),
           st1))"

definition get_office_path :: "world \<Rightarrow> state \<Rightarrow> (exc + string) \<times> state" where
  "get_office_path w st =
     (let system = lower (platform_system w)
      in if system = ''windows'' then first_office_path w windows_office_paths st
         else if system = ''linux'' then first_office_path w linux_office_paths st
         else (Inl (OSError (''Unsupported operating system: '' @ system)), st))"

definition get_python_path :: "world \<Rightarrow> state \<Rightarrow> string \<times> state" where
  "get_python_path w st =
     (let system = lower (platform_system w)
      in if system = ''windows'' then
           (case for_path_in w windows_python_paths st of
              (Some path, st1) \<Rightarrow> (path, st1)
            | (None, st1) \<Rightarrow> (sys_executable w, st1))
         else (sys_executable w, st))"

subsection \<open>Launching\<close>

definition is_port_in_use :: "world \<Rightarrow> int \<Rightarrow> state \<Rightarrow> (exc + bool) \<times> state" where
  "is_port_in_use w port st =
     (case connect_ex w (trace st) port of
        Inl e \<Rightarrow> (Inl e, emit (ConnectEx port) st)
      | Inr r \<Rightarrow> (Inr (r = 0), emit (ConnectEx port) st))"

definition time_sleep :: "world \<Rightarrow> nat \<Rightarrow> state \<Rightarrow> (exc + unit) \<times> state" where
  "time_sleep w n st =
     (case sleep w (trace st) n of
        None \<Rightarrow> (Inr (), emit (Sleep n) st)
      | Some e \<Rightarrow> (Inl e, emit (Sleep n) st))"

definition office_args :: "string \<Rightarrow> int \<Rightarrow> string list" where
  "office_args soffice_path port =
     [soffice_path,
      ''-env:UserInstallation=file:///C:/Temp/LibreOfficeHeadlessProfile'',
      ''--headless'',
      ''--accept=socket,host=localhost,port='' @ str_int port @ '';urp;'',
      ''--norestore'',
      ''--nodefault'',
      ''--nologo'']"

definition start_office :: "world \<Rightarrow> int \<Rightarrow> state \<Rightarrow> (exc + unit) \<times> state" where
  "start_office w port st =
     (case is_port_in_use w port st of
        (Inl e, st1) \<Rightarrow> (Inl e, st1)
      | (Inr in_use, st1) \<Rightarrow>
          if \<not> in_use then
            (let st2 = emit (Print ''Starting Collabora Office with socket...'') st1
             in case get_office_path w st2 of
                  (Inl e, st3) \<Rightarrow> (Inl e, st3)
                | (Inr soffice_path, st3) \<Rightarrow>
                    (let args = office_args soffice_path port
                     in case popen w (trace st3) args of
                          Inl e \<Rightarrow> (Inl e, emit (Popen args) st3)
                        | Inr h \<Rightarrow>
                            time_sleep w 3 ((emit (Popen args) st3)\<lparr>office_process := Some h\<rparr>)))
          else (Inr (), emit (Print (''Office socket already running on port '' @ str_int port)) st1))"

definition start_helper :: "world \<Rightarrow> state \<Rightarrow> (exc + unit) \<times> state" where
  "start_helper w st =
     (case is_port_in_use w 8765 st of
        (Inl e, st1) \<Rightarrow> (Inl e, st1)
      | (Inr in_use, st1) \<Rightarrow>
          if \<not> in_use then
            (let st2 = emit (Print ''Starting Office helper...'') st1;
                 exe_dir = path_dirname w (sys_argv0 w);
                 helper_script = path_join w exe_dir ''helper.py''
             in case get_python_path w st2 of
                  (python_path, st3) \<Rightarrow>
                    (let args = [python_path, helper_script]
                     in case popen w (trace st3) args of
                          Inl e \<Rightarrow> (Inl e, emit (Popen args) st3)
                        | Inr h \<Rightarrow>
                            time_sleep w 3 ((emit (Popen args) st3)\<lparr>helper_process := Some h\<rparr>)))
          else (Inr (), emit (Print ''Helper script already running on port 8765'') st1))"

definition start_mcp_server :: "world \<Rightarrow> state \<Rightarrow> (exc + unit) \<times> state" where
  "start_mcp_server w st =
     (let st1 = emit (Print ''Starting Office MCP server...'') st;
          server_script = path_join w (path_dirname w (module_file w)) ''libre.py'';
          args = [sys_executable w, server_script]
      in case run w (trace st1) args of
           Inl e \<Rightarrow> (Inl e, emit (Run args) st1)
         | Inr rc \<Rightarrow> (Inr (), emit (Run args) st1))"

subsection \<open>Top-level orchestration\<close>

text \<open>Lines 155-160: the registrations that \<open>main\<close> makes before the \<open>try\<close>.\<close>

definition register_handlers :: "world \<Rightarrow> state \<Rightarrow> state" where
  "register_handlers w st =
     (let st1 = st\<lparr>atexit_callbacks := atexit_callbacks st @ [CleanupProcesses]\<rparr>;
          st2 = st1\<lparr>signal_handlers := (signal_handlers st1)(SIGINT := SignalHandler)\<rparr>
      in if platform_system w \<noteq> ''Windows''
         then st2\<lparr>signal_handlers := (signal_handlers st2)(SIGTERM := SignalHandler)\<rparr>
         else st2)"

text \<open>Lines 163-165: the body of the \<open>try\<close>; \<open>start_office()\<close> takes its default port.\<close>

definition startup :: "world \<Rightarrow> state \<Rightarrow> (exc + unit) \<times> state" where
  "startup w st =
     (case start_office w 2002 st of
        (Inl e, st1) \<Rightarrow> (Inl e, st1)
      | (Inr u, st1) \<Rightarrow>
          (case start_helper w st1 of
             (Inl e, st2) \<Rightarrow> (Inl e, st2)
           | (Inr u, st2) \<Rightarrow> start_mcp_server w st2))"

text \<open>
  \<open>sys.exit(n)\<close> raises \<open>SystemExit n\<close>, which ends the process with status \<open>n\<close>. An
  exception that neither \<open>except\<close> clause matches, and one raised by
  \<open>cleanup_processes\<close> inside a clause, leaves \<open>main\<close> as it is.
\<close>

definition main :: "world \<Rightarrow> state \<Rightarrow> (exc + unit) \<times> state" where
  "main w st =
     (case startup w (register_handlers w st) of
        (Inr u, st1) \<Rightarrow> (Inr (), st1)
      | (Inl e, st1) \<Rightarrow>
          if e = KeyboardInterrupt then
            (let st2 = emit (Print (newline @ ''Received keyboard interrupt. Shutting down...'')) st1
             in case cleanup_processes w st2 of
                  (Inl e', st3) \<Rightarrow> (Inl e', st3)
                | (Inr u, st3) \<Rightarrow> (Inl (SystemExit 0), st3))
          else if is_Exception e then
            (let st2 = emit (Print (''An error occurred: '' @ exc_str e)) st1
             in case cleanup_processes w st2 of
                  (Inl e', st3) \<Rightarrow> (Inl e', st3)
                | (Inr u, st3) \<Rightarrow> (Inl (SystemExit 1), st3))
          else (Inl e, st1))"

subsection \<open>Vocabulary of the properties\<close>

text \<open>The events that a call added to the trace.\<close>

definition emitted :: "state \<Rightarrow> state \<Rightarrow> event list" where
  "emitted st st' = drop (length (trace st)) (trace st')"

text \<open>A termination request of either kind, a spawn, and the calls made on one handle.\<close>

fun is_signal :: "event \<Rightarrow> bool" where
  "is_signal (Terminate h) = True"
| "is_signal (Kill h) = True"
| "is_signal e = False"

fun is_Popen :: "event \<Rightarrow> bool" where
  "is_Popen (Popen args) = True"
| "is_Popen e = False"

fun on_process :: "handle \<Rightarrow> event \<Rightarrow> bool" where
  "on_process h (Terminate h') = (h = h')"
| "on_process h (Wait h' n) = (h = h')"
| "on_process h (Kill h') = (h = h')"
| "on_process h e = False"

text \<open>
  What \<open>Popen.wait(timeout=5)\<close> is documented to do: return the exit status, or raise
  \<open>TimeoutExpired\<close>.
\<close>

fun wait_ok :: "exc + int \<Rightarrow> bool" where
  "wait_ok (Inr rc) = True"
| "wait_ok (Inl (TimeoutExpired m)) = True"
| "wait_ok (Inl e) = False"

fun timed_out :: "exc + int \<Rightarrow> bool" where
  "timed_out (Inl (TimeoutExpired m)) = True"
| "timed_out r = False"

text \<open>
  A world to run the supervisor in: a Linux machine with one office executable
  installed, free ports, and processes that stay alive until asked to stop. The path
  functions are the ones that the tests of \<open>start_helper\<close> put in place of \<open>os.path\<close>.
\<close>

definition demo_world :: world where
  "demo_world =
     \<lparr>platform_system = ''Linux'',
      path_exists = (\<lambda>p. p = ''/opt/collaboraoffice/program/soffice''),
      sys_executable = ''/usr/bin/python3'',
      sys_argv0 = ''main.py'',
      module_file = ''/dir/main.py'',
      os_getcwd = ''/home/user'',
      path_dirname = (\<lambda>p. ''/dir''),
      path_join = (\<lambda>a b. a @ ''/'' @ b),
      connect_ex = (\<lambda>tr port. Inr 111),
      popen = (\<lambda>tr args. Inr (length tr)),
      sleep = (\<lambda>tr n. None),
      poll = (\<lambda>tr h. None),
      wait = (\<lambda>tr h n. Inr 0),
      run = (\<lambda>tr args. Inr 0)\<rparr>"

text \<open>
  The events of one \<open>if\<close> block of \<open>cleanup_processes\<close>, for a handle variable and the
  trace at which the block starts, when \<open>wait\<close> returns or times out.
\<close>

definition block_events :: "world \<Rightarrow> string \<Rightarrow> handle option \<Rightarrow> event list \<Rightarrow> event list" where
  "block_events w msg proc tr =
     (case proc of
        None \<Rightarrow> []
      | Some h \<Rightarrow>
          if poll w tr h = None then
            [Poll h, Print msg, Terminate h, Wait h 5]
              @ (if timed_out (wait w (tr @ [Poll h, Print msg, Terminate h]) h 5)
                 then [Kill h] else [])
          else [Poll h])"

text \<open>
  A state in which both processes were launched by this run, a world in which a process
  is reported as exited once it was waited for, and a world in which the helper ignores
  the termination request.
\<close>

definition running_state :: state where
  "running_state = initial_state\<lparr>office_process := Some 2, helper_process := Some 1\<rparr>"

definition exiting_world :: world where
  "exiting_world = demo_world\<lparr>poll := (\<lambda>tr h. if Wait h 5 \<in> set tr then Some 0 else None)\<rparr>"

definition stubborn_world :: world where
  "stubborn_world =
     demo_world\<lparr>wait := (\<lambda>tr h n. if h = 1 then Inl (TimeoutExpired ''timed out'') else Inr 0)\<rparr>"



definition bound_world :: world where
  "bound_world = demo_world\<lparr>connect_ex := (\<lambda>tr port. Inr 0)\<rparr>"





section \<open>Basic facts\<close>

lemma emit_simps [simp]:
  "trace (emit e st) = trace st @ [e]"
  "office_process (emit e st) = office_process st"
  "helper_process (emit e st) = helper_process st"
  "atexit_callbacks (emit e st) = atexit_callbacks st"
  "signal_handlers (emit e st) = signal_handlers st"
  by (simp_all add: emit_def)

lemma emitted_update [simp]: "emitted st (st\<lparr>trace := trace st @ evs\<rparr>) = evs"
  by (simp add: emitted_def)

lemma lower_Linux: "lower ''Linux'' = ''linux''"
  by (simp add: lower_def lower_char_def)

lemma lower_Darwin: "lower ''Darwin'' = ''darwin''"
  by (simp add: lower_def lower_char_def)

lemma terminate_block_None [simp]: "terminate_block w msg None st = (Inr (), st)"
  by (simp add: terminate_block_def)

lemma terminate_block_exited:
  "poll w (trace st) h \<noteq> None \<Longrightarrow>
   terminate_block w msg (Some h) st = (Inr (), st\<lparr>trace := trace st @ [Poll h]\<rparr>)"
  by (auto simp add: terminate_block_def emit_def Let_def)

lemma terminate_block_alive:
  assumes "poll w (trace st) h = None"
  shows "terminate_block w msg (Some h) st =
     (case wait w (trace st @ [Poll h, Print msg, Terminate h]) h 5 of
        Inr rc \<Rightarrow> (Inr (), st\<lparr>trace := trace st @ [Poll h, Print msg, Terminate h, Wait h 5]\<rparr>)
      | Inl e \<Rightarrow>
          (case e of
             TimeoutExpired m \<Rightarrow>
               (Inr (), st\<lparr>trace := trace st @ [Poll h, Print msg, Terminate h, Wait h 5, Kill h]\<rparr>)
           | _ \<Rightarrow> (Inl e, st\<lparr>trace := trace st @ [Poll h, Print msg, Terminate h, Wait h 5]\<rparr>)))"
  using assms
  by (simp add: terminate_block_def emit_def Let_def split: sum.splits exc.splits)

lemma for_path_in_find: "fst (for_path_in w ps st) = find (path_exists w) ps"
  by (induction ps arbitrary: st) (simp_all add: Let_def)

lemma first_office_path_find:
  "fst (first_office_path w ps st) =
     (case find (path_exists w) ps of
        Some p \<Rightarrow> Inr p
      | None \<Rightarrow> Inl (FileNotFoundError
          ''Neither Collabora Office nor LibreOffice executable found. Please install either office suite.''))"
proof -
  obtain r st1 where eq: "for_path_in w ps st = (r, st1)"
    by (cases "for_path_in w ps st")
  then have "r = find (path_exists w) ps"
    using for_path_in_find [of w ps st] by simp
  with eq show ?thesis
    by (simp add: first_office_path_def split: option.splits)
qed

lemma terminate_block_trace:
  "\<exists>evs. snd (terminate_block w msg proc st) = st\<lparr>trace := trace st @ evs\<rparr>"
proof (cases proc)
  case None
  have "st = st\<lparr>trace := trace st @ []\<rparr>" by simp
  with None show ?thesis by (metis terminate_block_None snd_conv)
next
  case (Some h)
  show ?thesis
  proof (cases "poll w (trace st) h = None")
    case True
    show ?thesis
      unfolding Some terminate_block_alive [OF True]
      by (simp split: sum.splits exc.splits) blast+
  next
    case False
    show ?thesis
      unfolding Some terminate_block_exited [OF False] by simp blast
  qed
qed

lemma terminate_block_handles [simp]:
  "helper_process (snd (terminate_block w msg proc st)) = helper_process st"
  "office_process (snd (terminate_block w msg proc st)) = office_process st"
proof -
  obtain evs where "snd (terminate_block w msg proc st) = st\<lparr>trace := trace st @ evs\<rparr>"
    using terminate_block_trace by blast
  then show "helper_process (snd (terminate_block w msg proc st)) = helper_process st"
    and "office_process (snd (terminate_block w msg proc st)) = office_process st"
    by simp_all
qed

lemma cleanup_processes_unfold:
  "cleanup_processes w st =
     (case terminate_block w ''Terminating helper process...'' (helper_process st)
             (emit (Print ''Cleaning up processes...'') st) of
        (Inl e, st2) \<Rightarrow> (Inl e, st2)
      | (Inr u, st2) \<Rightarrow>
          terminate_block w ''Terminating office process...'' (office_process st) st2)"
proof -
  let ?st1 = "emit (Print ''Cleaning up processes...'') st"
  obtain r st2 where eq: "terminate_block w ''Terminating helper process...'' (helper_process st) ?st1 = (r, st2)"
    by (cases "terminate_block w ''Terminating helper process...'' (helper_process st) ?st1")
  have "office_process st2 = office_process st"
    using terminate_block_handles(2) [of w "''Terminating helper process...''" "helper_process st" ?st1] eq
    by simp
  with eq show ?thesis
    by (simp add: cleanup_processes_def Let_def split: sum.splits)
qed

lemma cleanup_handles [simp]:
  "helper_process (snd (cleanup_processes w st)) = helper_process st"
  "office_process (snd (cleanup_processes w st)) = office_process st"
proof -
  let ?st1 = "emit (Print ''Cleaning up processes...'') st"
  obtain r st2 where eq: "terminate_block w ''Terminating helper process...'' (helper_process st) ?st1 = (r, st2)"
    by (cases "terminate_block w ''Terminating helper process...'' (helper_process st) ?st1")
  have h2: "helper_process st2 = helper_process st" "office_process st2 = office_process st"
    using terminate_block_handles [of w "''Terminating helper process...''" "helper_process st" ?st1] eq
    by simp_all
  show "helper_process (snd (cleanup_processes w st)) = helper_process st"
    by (cases r) (simp_all add: cleanup_processes_unfold eq h2)
  show "office_process (snd (cleanup_processes w st)) = office_process st"
    by (cases r) (simp_all add: cleanup_processes_unfold eq h2)
qed


lemma terminate_block_ok:
  assumes "\<forall>h. proc = Some h \<longrightarrow> wait_ok (wait w (trace st @ [Poll h, Print msg, Terminate h]) h 5)"
  shows "terminate_block w msg proc st =
           (Inr (), st\<lparr>trace := trace st @ block_events w msg proc (trace st)\<rparr>)"
proof (cases proc)
  case None
  then show ?thesis by (simp add: block_events_def)
next
  case (Some h)
  let ?r = "wait w (trace st @ [Poll h, Print msg, Terminate h]) h 5"
  have ok: "wait_ok ?r" using assms Some by simp
  show ?thesis
  proof (cases "poll w (trace st) h = None")
    case False
    then show ?thesis
      using terminate_block_exited [OF False, of msg] Some by (simp add: block_events_def)
  next
    case True
    show ?thesis
    proof (cases ?r)
      case (Inr rc)
      then show ?thesis
        using terminate_block_alive [OF True, of msg] Some True by (simp add: block_events_def)
    next
      case (Inl e)
      with ok obtain m where "e = TimeoutExpired m" by (cases e) simp_all
      with Inl show ?thesis
        using terminate_block_alive [OF True, of msg] Some True by (simp add: block_events_def)
    qed
  qed
qed

lemma cleanup_processes_ok:
  assumes "\<forall>tr h. wait_ok (wait w (trace st @ tr) h 5)"
  shows "cleanup_processes w st =
     (Inr (), st\<lparr>trace := trace st @ [Print ''Cleaning up processes...'']
        @ block_events w ''Terminating helper process...'' (helper_process st)
            (trace st @ [Print ''Cleaning up processes...''])
        @ block_events w ''Terminating office process...'' (office_process st)
            (trace st @ [Print ''Cleaning up processes...'']
               @ block_events w ''Terminating helper process...'' (helper_process st)
                   (trace st @ [Print ''Cleaning up processes...'']))\<rparr>)"
proof -
  let ?c = "Print ''Cleaning up processes...''"
  let ?s1 = "st\<lparr>trace := trace st @ [?c]\<rparr>"
  let ?bh = "block_events w ''Terminating helper process...'' (helper_process st) (trace st @ [?c])"
  let ?s2 = "st\<lparr>trace := trace st @ [?c] @ ?bh\<rparr>"
  let ?bo = "block_events w ''Terminating office process...'' (office_process st) (trace st @ [?c] @ ?bh)"
  have e1: "emit ?c st = ?s1" by (simp add: emit_def)
  have b1: "terminate_block w ''Terminating helper process...'' (helper_process st) ?s1 = (Inr (), ?s2)"
    using terminate_block_ok [of "helper_process st" w ?s1 "''Terminating helper process...''"] assms
    by simp
  have b2: "terminate_block w ''Terminating office process...'' (office_process st) ?s2 =
      (Inr (), st\<lparr>trace := trace st @ [?c] @ ?bh @ ?bo\<rparr>)"
    using terminate_block_ok [of "office_process st" w ?s2 "''Terminating office process...''"] assms
    by simp
  show ?thesis
    unfolding cleanup_processes_unfold e1 b1 by (simp only: prod.case sum.case b2)
qed

lemma terminate_block_all_exited:
  assumes "\<forall>h. proc = Some h \<longrightarrow> poll w (trace st) h \<noteq> None"
  shows "terminate_block w msg proc st =
           (Inr (), st\<lparr>trace := trace st @ (case proc of None \<Rightarrow> [] | Some h \<Rightarrow> [Poll h])\<rparr>)"
proof (cases proc)
  case None
  then show ?thesis by simp
next
  case (Some h)
  with assms have "poll w (trace st) h \<noteq> None" by simp
  from terminate_block_exited [OF this, of msg] Some show ?thesis by simp
qed


lemma filter_block_other:
  "proc \<noteq> Some h \<Longrightarrow> filter (on_process h) (block_events w msg proc tr) = []"
  by (cases proc) (auto simp add: block_events_def)

lemma filter_block_self:
  "poll w tr h = None \<Longrightarrow>
   filter (on_process h) (block_events w msg (Some h) tr) =
     [Terminate h, Wait h 5]
       @ (if timed_out (wait w (tr @ [Poll h, Print msg, Terminate h]) h 5) then [Kill h] else [])"
  by (simp add: block_events_def)





lemma for_path_in_events:
  "\<exists>xs. snd (for_path_in w ps st) = st\<lparr>trace := trace st @ map PathExists xs\<rparr>"
proof (induction ps arbitrary: st)
  case Nil
  have "st = st\<lparr>trace := trace st @ map PathExists []\<rparr>" by simp
  then show ?case by (metis for_path_in.simps(1) snd_conv)
next
  case (Cons p ps)
  show ?case
  proof (cases "path_exists w p")
    case True
    have "snd (for_path_in w (p # ps) st) = st\<lparr>trace := trace st @ map PathExists [p]\<rparr>"
      using True by (simp add: Let_def emit_def)
    then show ?thesis by blast
  next
    case False
    from Cons.IH [of "emit (PathExists p) st"] obtain xs where
      "snd (for_path_in w ps (emit (PathExists p) st)) =
         (emit (PathExists p) st)\<lparr>trace := trace (emit (PathExists p) st) @ map PathExists xs\<rparr>"
      by blast
    then have "snd (for_path_in w (p # ps) st) = st\<lparr>trace := trace st @ map PathExists (p # xs)\<rparr>"
      using False by (simp add: Let_def emit_def)
    then show ?thesis by blast
  qed
qed

lemma get_python_path_events:
  "\<exists>xs. snd (get_python_path w st) = st\<lparr>trace := trace st @ map PathExists xs\<rparr>"
proof (cases "lower (platform_system w) = ''windows''")
  case True
  obtain xs where xs: "snd (for_path_in w windows_python_paths st) =
      st\<lparr>trace := trace st @ map PathExists xs\<rparr>"
    using for_path_in_events by blast
  have "snd (get_python_path w st) = snd (for_path_in w windows_python_paths st)"
    using True by (simp add: get_python_path_def Let_def split: prod.splits option.splits)
  with xs show ?thesis by auto
next
  case False
  have "st = st\<lparr>trace := trace st @ map PathExists []\<rparr>" by simp
  moreover have "snd (get_python_path w st) = st"
    using False by (simp add: get_python_path_def Let_def)
  ultimately show ?thesis by metis
qed

lemma get_office_path_events:
  "\<exists>xs. snd (get_office_path w st) = st\<lparr>trace := trace st @ map PathExists xs\<rparr>"
proof -
  have fo: "\<exists>xs. snd (first_office_path w ps st) = st\<lparr>trace := trace st @ map PathExists xs\<rparr>" for ps
  proof -
    obtain xs where xs: "snd (for_path_in w ps st) = st\<lparr>trace := trace st @ map PathExists xs\<rparr>"
      using for_path_in_events by blast
    have "snd (first_office_path w ps st) = snd (for_path_in w ps st)"
      by (simp add: first_office_path_def split: prod.splits option.splits)
    with xs show ?thesis by auto
  qed
  have "st = st\<lparr>trace := trace st @ map PathExists []\<rparr>" by simp
  then have un: "\<exists>xs. st = st\<lparr>trace := trace st @ map PathExists xs\<rparr>" by blast
  show ?thesis
    using fo un by (auto simp add: get_office_path_def Let_def)
qed

lemma no_Popen_PathExists [simp]: "filter is_Popen (map PathExists xs) = []"
  by (induction xs) simp_all

lemma time_sleep_snd:
  "snd (time_sleep w n s) = s\<lparr>trace := trace s @ [Sleep n]\<rparr>"
  by (simp add: time_sleep_def emit_def split: option.splits)

lemma start_helper_shape:
  "\<exists>pre post. trace (snd (start_helper w st)) = trace st @ pre @ post \<and>
     filter is_Popen pre = [] \<and>
     (post = [] \<or>
      (\<exists>py. post = [Popen [py, path_join w (path_dirname w (sys_argv0 w)) ''helper.py'']] \<or>
            post = [Popen [py, path_join w (path_dirname w (sys_argv0 w)) ''helper.py''], Sleep 3])) \<and>
     (fst (is_port_in_use w 8765 st) = Inr False \<longrightarrow> post \<noteq> [])"
proof (cases "connect_ex w (trace st) 8765")
  case (Inl e)
  then have "trace (snd (start_helper w st)) = trace st @ [ConnectEx 8765] @ []"
    by (simp add: start_helper_def is_port_in_use_def)
  moreover have "fst (is_port_in_use w 8765 st) \<noteq> Inr False"
    using Inl by (simp add: is_port_in_use_def)
  moreover have "filter is_Popen [ConnectEx 8765] = []" by simp
  ultimately show ?thesis by blast
next
  case (Inr r)
  show ?thesis
  proof (cases "r = 0")
    case True
    with Inr have "trace (snd (start_helper w st)) =
        trace st @ [ConnectEx 8765, Print ''Helper script already running on port 8765''] @ []"
      by (simp add: start_helper_def is_port_in_use_def)
    moreover have "fst (is_port_in_use w 8765 st) \<noteq> Inr False"
      using Inr True by (simp add: is_port_in_use_def)
    moreover have "filter is_Popen
        [ConnectEx 8765, Print ''Helper script already running on port 8765''] = []" by simp
    ultimately show ?thesis by blast
  next
    case False
    let ?script = "path_join w (path_dirname w (sys_argv0 w)) ''helper.py''"
    let ?st2 = "emit (Print ''Starting Office helper...'') (emit (ConnectEx 8765) st)"
    obtain py st3 where g: "get_python_path w ?st2 = (py, st3)"
      by (cases "get_python_path w ?st2")
    obtain xs where "snd (get_python_path w ?st2) = ?st2\<lparr>trace := trace ?st2 @ map PathExists xs\<rparr>"
      using get_python_path_events by blast
    with g have st3: "st3 = ?st2\<lparr>trace := trace ?st2 @ map PathExists xs\<rparr>" by simp
    let ?pre = "[ConnectEx 8765, Print ''Starting Office helper...''] @ map PathExists xs"
    have tr3: "trace st3 = trace st @ ?pre" by (simp add: st3)
    have pre: "filter is_Popen ?pre = []" by simp
    have sh: "start_helper w st =
        (case popen w (trace st3) [py, ?script] of
           Inl e \<Rightarrow> (Inl e, emit (Popen [py, ?script]) st3)
         | Inr h \<Rightarrow> time_sleep w 3 ((emit (Popen [py, ?script]) st3)\<lparr>helper_process := Some h\<rparr>))"
      using Inr False g by (simp add: start_helper_def is_port_in_use_def Let_def)
    show ?thesis
    proof (cases "popen w (trace st3) [py, ?script]")
      case (Inl e)
      then have "trace (snd (start_helper w st)) = trace st @ ?pre @ [Popen [py, ?script]]"
        by (simp add: sh tr3)
      with pre show ?thesis by blast
    next
      case (Inr h)
      then have "trace (snd (start_helper w st)) = trace st @ ?pre @ [Popen [py, ?script], Sleep 3]"
        by (simp add: sh tr3 time_sleep_snd)
      with pre show ?thesis by blast
    qed
  qed
qed

lemma time_sleep_handles [simp]:
  "office_process (snd (time_sleep w n s)) = office_process s"
  "helper_process (snd (time_sleep w n s)) = helper_process s"
  by (simp_all add: time_sleep_snd)

lemma start_office_bound:
  "fst (is_port_in_use w port st) = Inr True \<Longrightarrow>
   start_office w port st =
     (Inr (), st\<lparr>trace := trace st @
        [ConnectEx port, Print (''Office socket already running on port '' @ str_int port)]\<rparr>)"
  by (auto simp add: start_office_def is_port_in_use_def emit_def split: sum.splits)

lemma start_helper_bound:
  "fst (is_port_in_use w 8765 st) = Inr True \<Longrightarrow>
   start_helper w st =
     (Inr (), st\<lparr>trace := trace st @
        [ConnectEx 8765, Print ''Helper script already running on port 8765'']\<rparr>)"
  by (auto simp add: start_helper_def is_port_in_use_def emit_def split: sum.splits)

lemma start_office_shape:
  "\<exists>pre post. trace (snd (start_office w port st)) = trace st @ pre @ post \<and>
     filter is_Popen pre = [] \<and>
     (post = [] \<or> (\<exists>args. post = [Popen args] \<or> post = [Popen args, Sleep 3]))"
proof (cases "connect_ex w (trace st) port")
  case (Inl e)
  then have "trace (snd (start_office w port st)) = trace st @ [ConnectEx port] @ []"
    by (simp add: start_office_def is_port_in_use_def)
  moreover have "filter is_Popen [ConnectEx port] = []" by simp
  ultimately show ?thesis by blast
next
  case (Inr r)
  show ?thesis
  proof (cases "r = 0")
    case True
    with Inr have "trace (snd (start_office w port st)) =
        trace st @ [ConnectEx port, Print (''Office socket already running on port '' @ str_int port)] @ []"
      by (simp add: start_office_def is_port_in_use_def)
    moreover have "filter is_Popen
        [ConnectEx port, Print (''Office socket already running on port '' @ str_int port)] = []"
      by simp
    ultimately show ?thesis by blast
  next
    case False
    let ?st2 = "emit (Print ''Starting Collabora Office with socket...'') (emit (ConnectEx port) st)"
    obtain res st3 where g: "get_office_path w ?st2 = (res, st3)"
      by (cases "get_office_path w ?st2")
    obtain xs where "snd (get_office_path w ?st2) = ?st2\<lparr>trace := trace ?st2 @ map PathExists xs\<rparr>"
      using get_office_path_events by blast
    with g have st3: "st3 = ?st2\<lparr>trace := trace ?st2 @ map PathExists xs\<rparr>" by simp
    let ?pre = "[ConnectEx port, Print ''Starting Collabora Office with socket...''] @ map PathExists xs"
    have tr3: "trace st3 = trace st @ ?pre" by (simp add: st3)
    have pre: "filter is_Popen ?pre = []" by simp
    show ?thesis
    proof (cases res)
      case (Inl e)
      then have "start_office w port st = (Inl e, st3)"
        using Inr False g by (simp add: start_office_def is_port_in_use_def Let_def)
      then have "trace (snd (start_office w port st)) = trace st @ ?pre @ []"
        by (simp add: tr3)
      with pre show ?thesis by blast
    next
      case soffice: (Inr soffice_path)
      let ?args = "office_args soffice_path port"
      have so: "start_office w port st =
          (case popen w (trace st3) ?args of
             Inl e \<Rightarrow> (Inl e, emit (Popen ?args) st3)
           | Inr h \<Rightarrow> time_sleep w 3 ((emit (Popen ?args) st3)\<lparr>office_process := Some h\<rparr>))"
        using Inr False g soffice by (simp add: start_office_def is_port_in_use_def Let_def)
      show ?thesis
      proof (cases "popen w (trace st3) ?args")
        case (Inl e)
        then have "trace (snd (start_office w port st)) = trace st @ ?pre @ [Popen ?args]"
          by (simp add: so tr3)
        with pre show ?thesis by blast
      next
        case (Inr h)
        then have "trace (snd (start_office w port st)) = trace st @ ?pre @ [Popen ?args, Sleep 3]"
          by (simp add: so tr3 time_sleep_snd)
        with pre show ?thesis by blast
      qed
    qed
  qed
qed

lemma at_most_one_Popen:
  assumes "trace st' = trace st @ pre @ post" and "filter is_Popen pre = []"
    and "post = [] \<or> (\<exists>args. post = [Popen args] \<or> post = [Popen args, Sleep 3])"
  shows "length (filter is_Popen (emitted st st')) \<le> 1"
proof -
  have "emitted st st' = pre @ post" using assms(1) by (simp add: emitted_def)
  with assms(2,3) show ?thesis by auto
qed

lemma terminate_block_signals:
  "\<exists>evs. snd (terminate_block w msg proc st) = st\<lparr>trace := trace st @ evs\<rparr> \<and>
     (\<forall>e\<in>set evs. is_signal e \<longrightarrow> (\<exists>h. proc = Some h \<and> (e = Terminate h \<or> e = Kill h)))"
proof (cases proc)
  case None
  have "st = st\<lparr>trace := trace st @ []\<rparr>" by simp
  then have "snd (terminate_block w msg proc st) = st\<lparr>trace := trace st @ []\<rparr>"
    using None by simp
  then show ?thesis by (intro exI [of _ "[]"]) simp
next
  case (Some h)
  show ?thesis
  proof (cases "poll w (trace st) h = None")
    case False
    have "snd (terminate_block w msg proc st) = st\<lparr>trace := trace st @ [Poll h]\<rparr>"
      using terminate_block_exited [OF False, of msg] Some by simp
    then show ?thesis by (intro exI [of _ "[Poll h]"]) simp
  next
    case True
    let ?k = "if timed_out (wait w (trace st @ [Poll h, Print msg, Terminate h]) h 5)
              then [Kill h] else []"
    have "snd (terminate_block w msg (Some h) st) =
        st\<lparr>trace := trace st @ [Poll h, Print msg, Terminate h, Wait h 5] @ ?k\<rparr>"
      unfolding terminate_block_alive [OF True]
      by (simp split: sum.splits exc.splits)
    then show ?thesis
      using Some by (intro exI [of _ "[Poll h, Print msg, Terminate h, Wait h 5] @ ?k"]) simp
  qed
qed

lemma cleanup_processes_signals_owned:
  "\<forall>e\<in>set (emitted st (snd (cleanup_processes w st))). is_signal e \<longrightarrow>
     (\<exists>h. (helper_process st = Some h \<or> office_process st = Some h) \<and>
          (e = Terminate h \<or> e = Kill h))"
proof -
  let ?c = "Print ''Cleaning up processes...''"
  let ?st1 = "emit ?c st"
  let ?P = "\<lambda>proc e. is_signal e \<longrightarrow> (\<exists>h. proc = Some h \<and> (e = Terminate h \<or> e = Kill h))"
  obtain r st2 where b1: "terminate_block w ''Terminating helper process...'' (helper_process st) ?st1 = (r, st2)"
    by (cases "terminate_block w ''Terminating helper process...'' (helper_process st) ?st1")
  obtain evs1 where e1: "st2 = ?st1\<lparr>trace := trace ?st1 @ evs1\<rparr>"
    and s1: "\<forall>e\<in>set evs1. ?P (helper_process st) e"
    using terminate_block_signals [of w "''Terminating helper process...''" "helper_process st" ?st1] b1
    by auto
  have t2: "trace st2 = trace st @ [?c] @ evs1" by (simp add: e1)
  show ?thesis
  proof (cases r)
    case (Inl e)
    then have "snd (cleanup_processes w st) = st2"
      by (simp add: cleanup_processes_unfold b1)
    then have "emitted st (snd (cleanup_processes w st)) = [?c] @ evs1"
      by (simp add: emitted_def t2)
    with s1 show ?thesis by auto
  next
    case (Inr u)
    then have cl: "cleanup_processes w st =
        terminate_block w ''Terminating office process...'' (office_process st) st2"
      by (simp add: cleanup_processes_unfold b1)
    obtain evs2 where e2: "snd (cleanup_processes w st) = st2\<lparr>trace := trace st2 @ evs2\<rparr>"
      and s2: "\<forall>e\<in>set evs2. ?P (office_process st) e"
      using terminate_block_signals [of w "''Terminating office process...''" "office_process st" st2] cl
      by auto
    have "emitted st (snd (cleanup_processes w st)) = [?c] @ evs1 @ evs2"
      by (simp add: emitted_def e2 t2)
    with s1 s2 show ?thesis by auto
  qed
qed

section \<open>Launching when the port is already bound\<close>

text \<open>
  Claim C1. When \<open>is_port_in_use\<close> answers \<open>True\<close>, \<open>start_office\<close> (for every port)
  and \<open>start_helper\<close> (for its port 8765) return normally, leave the state as it was
  and add two events to the trace: the probe and one line on stderr. So there is no
  \<open>Popen\<close> and no \<open>Sleep\<close>.
\<close>

theorem start_already_running:
  "(fst (is_port_in_use w port st) = Inr True \<longrightarrow>
      start_office w port st =
        (Inr (), st\<lparr>trace := trace st @
           [ConnectEx port, Print (''Office socket already running on port '' @ str_int port)]\<rparr>)) \<and>
   (fst (is_port_in_use w 8765 st) = Inr True \<longrightarrow>
      start_helper w st =
        (Inr (), st\<lparr>trace := trace st @
           [ConnectEx 8765, Print ''Helper script already running on port 8765'']\<rparr>))"
  by (auto simp add: start_office_def start_helper_def is_port_in_use_def emit_def
      split: sum.splits)

theorem start_already_running_witness:
  "fst (is_port_in_use (demo_world\<lparr>connect_ex := (\<lambda>tr p. Inr 0)\<rparr>) 2002 initial_state) = Inr True \<and>
   start_office (demo_world\<lparr>connect_ex := (\<lambda>tr p. Inr 0)\<rparr>) 2002 initial_state =
     (Inr (), initial_state\<lparr>trace :=
        [ConnectEx 2002, Print ''Office socket already running on port 2002'']\<rparr>) \<and>
   fst (is_port_in_use (demo_world\<lparr>connect_ex := (\<lambda>tr p. Inr 0)\<rparr>) 8765 initial_state) = Inr True \<and>
   start_helper (demo_world\<lparr>connect_ex := (\<lambda>tr p. Inr 0)\<rparr>) initial_state =
     (Inr (), initial_state\<lparr>trace :=
        [ConnectEx 8765, Print ''Helper script already running on port 8765'']\<rparr>)"
  using start_already_running [of "demo_world\<lparr>connect_ex := (\<lambda>tr p. Inr 0)\<rparr>" 2002 initial_state]
  by (simp add: is_port_in_use_def demo_world_def initial_state_def str_int_def str_nat.simps)

section \<open>Locating the helper script\<close>


section \<open>Resolving the office executable\<close>

text \<open>
  Claim C6. On Windows and on Linux, for every predicate \<open>path_exists\<close>, the resolver
  returns the candidate of the platform's list at the least index whose path exists,
  and it raises \<open>FileNotFoundError\<close> when no candidate of the list exists.
\<close>

theorem get_office_path_first_existing:
  assumes "lower (platform_system w) = ''windows'' \<or> lower (platform_system w) = ''linux''"
    and "cands = (if lower (platform_system w) = ''windows''
                  then windows_office_paths else linux_office_paths)"
  shows "case fst (get_office_path w st) of
           Inr p \<Rightarrow>
             \<exists>i<length cands. cands ! i = p \<and> path_exists w p \<and>
               (\<forall>j<i. \<not> path_exists w (cands ! j))
         | Inl e \<Rightarrow>
             e = FileNotFoundError
               ''Neither Collabora Office nor LibreOffice executable found. Please install either office suite.''
             \<and> (\<forall>p\<in>set cands. \<not> path_exists w p)"
proof -
  have res: "fst (get_office_path w st) = fst (first_office_path w cands st)"
    using assms by (auto simp add: get_office_path_def Let_def)
  show ?thesis
  proof (cases "find (path_exists w) cands")
    case None
    then have "\<forall>p\<in>set cands. \<not> path_exists w p"
      by (simp add: find_None_iff)
    with None show ?thesis
      by (simp add: res first_office_path_find)
  next
    case (Some p)
    then have "\<exists>i<length cands. cands ! i = p \<and> path_exists w p \<and>
        (\<forall>j<i. \<not> path_exists w (cands ! j))"
      by (auto simp add: find_Some_iff)
    with Some show ?thesis
      by (simp add: res first_office_path_find)
  qed
qed

theorem get_office_path_first_existing_witness:
  "lower (platform_system demo_world) = ''linux'' \<and>
   fst (get_office_path demo_world initial_state) = Inr ''/opt/collaboraoffice/program/soffice'' \<and>
   (\<exists>i<length linux_office_paths.
      linux_office_paths ! i = ''/opt/collaboraoffice/program/soffice'' \<and>
      path_exists demo_world ''/opt/collaboraoffice/program/soffice'' \<and>
      (\<forall>j<i. \<not> path_exists demo_world (linux_office_paths ! j)))"
proof -
  have sys: "lower (platform_system demo_world) = ''linux''"
    by (simp add: demo_world_def lower_Linux)
  have res: "fst (get_office_path demo_world initial_state) = Inr ''/opt/collaboraoffice/program/soffice''"
    by (simp add: get_office_path_def first_office_path_def lower_Linux linux_office_paths_def
        Let_def demo_world_def)
  from get_office_path_first_existing [of demo_world linux_office_paths initial_state] sys res
  show ?thesis by simp
qed

text \<open>
  Claim C7. On a platform whose lower-cased name is neither \<open>windows\<close> nor \<open>linux\<close>,
  the resolver raises \<open>OSError\<close> and returns the state it was given: the trace has no
  new \<open>PathExists\<close> event, so no path was looked up.
\<close>

theorem get_office_path_unsupported:
  "lower (platform_system w) \<noteq> ''windows'' \<Longrightarrow> lower (platform_system w) \<noteq> ''linux'' \<Longrightarrow>
   get_office_path w st =
     (Inl (OSError (''Unsupported operating system: '' @ lower (platform_system w))), st)"
  by (simp add: get_office_path_def Let_def)

theorem get_office_path_unsupported_witness:
  "lower (platform_system (demo_world\<lparr>platform_system := ''Darwin''\<rparr>)) \<noteq> ''windows'' \<and>
   lower (platform_system (demo_world\<lparr>platform_system := ''Darwin''\<rparr>)) \<noteq> ''linux'' \<and>
   get_office_path (demo_world\<lparr>platform_system := ''Darwin''\<rparr>) initial_state =
     (Inl (OSError ''Unsupported operating system: darwin''), initial_state)"
  using get_office_path_unsupported [of "demo_world\<lparr>platform_system := ''Darwin''\<rparr>" initial_state]
  by (simp add: lower_Darwin)

section \<open>Shutdown\<close>

text \<open>
  Claim C10. With both handles unset, \<open>cleanup_processes\<close> returns normally and adds
  one event to the trace, its first line on stderr: no process is polled, terminated,
  waited for or killed.
\<close>

theorem cleanup_processes_unset:
  "helper_process st = None \<and> office_process st = None \<longrightarrow>
   cleanup_processes w st = (Inr (), st\<lparr>trace := trace st @ [Print ''Cleaning up processes...'']\<rparr>)"
  by (simp add: cleanup_processes_def Let_def emit_def)

theorem cleanup_processes_unset_witness:
  "helper_process initial_state = None \<and> office_process initial_state = None \<and>
   cleanup_processes demo_world initial_state =
     (Inr (), initial_state\<lparr>trace := [Print ''Cleaning up processes...'']\<rparr>)"
  using cleanup_processes_unset [of initial_state demo_world]
  by (simp add: initial_state_def)



text \<open>
  Claim C3. Let \<open>cleanup_processes\<close> run once, with any outcome, and let every owned
  handle be reported as exited from then on. Then a second run returns normally and
  only prints its first line and polls the owned handles: it issues no \<open>terminate\<close>
  and no \<open>kill\<close>.
\<close>

theorem cleanup_processes_twice:
  assumes first: "cleanup_processes w st = (r1, st1)"
    and exited: "\<forall>h tr. helper_process st = Some h \<or> office_process st = Some h \<longrightarrow>
                   poll w (trace st1 @ tr) h \<noteq> None"
  shows "cleanup_processes w st1 =
           (Inr (), st1\<lparr>trace := trace st1 @ [Print ''Cleaning up processes...'']
              @ (case helper_process st of None \<Rightarrow> [] | Some h \<Rightarrow> [Poll h])
              @ (case office_process st of None \<Rightarrow> [] | Some h \<Rightarrow> [Poll h])\<rparr>) \<and>
         (\<forall>e \<in> set (emitted st1 (snd (cleanup_processes w st1))). \<not> is_signal e)"
proof -
  let ?c = "Print ''Cleaning up processes...''"
  let ?ph = "case helper_process st of None \<Rightarrow> [] | Some h \<Rightarrow> [Poll h]"
  let ?po = "case office_process st of None \<Rightarrow> [] | Some h \<Rightarrow> [Poll h]"
  have hs: "helper_process st1 = helper_process st" "office_process st1 = office_process st"
    using cleanup_handles [of w st] first by simp_all
  let ?s1 = "st1\<lparr>trace := trace st1 @ [?c]\<rparr>"
  let ?s2 = "st1\<lparr>trace := trace st1 @ [?c] @ ?ph\<rparr>"
  have e1: "emit ?c st1 = ?s1" by (simp add: emit_def)
  have b1: "terminate_block w ''Terminating helper process...'' (helper_process st) ?s1 = (Inr (), ?s2)"
    using terminate_block_all_exited [of "helper_process st" w ?s1 "''Terminating helper process...''"]
      exited by simp
  have b2: "terminate_block w ''Terminating office process...'' (office_process st) ?s2 =
      (Inr (), st1\<lparr>trace := trace st1 @ [?c] @ ?ph @ ?po\<rparr>)"
    using terminate_block_all_exited [of "office_process st" w ?s2 "''Terminating office process...''"]
      exited by simp
  have eq: "cleanup_processes w st1 = (Inr (), st1\<lparr>trace := trace st1 @ [?c] @ ?ph @ ?po\<rparr>)"
    unfolding cleanup_processes_unfold hs e1 b1 by (simp only: prod.case sum.case b2)
  have "\<forall>e \<in> set ([?c] @ ?ph @ ?po). \<not> is_signal e"
    by (auto split: option.splits)
  with eq show ?thesis
    by (simp only: snd_conv emitted_update)
qed

theorem cleanup_processes_twice_witness:
  "cleanup_processes exiting_world running_state =
     (Inr (), running_state\<lparr>trace :=
        [Print ''Cleaning up processes...'',
         Poll 1, Print ''Terminating helper process...'', Terminate 1, Wait 1 5,
         Poll 2, Print ''Terminating office process...'', Terminate 2, Wait 2 5]\<rparr>) \<and>
   cleanup_processes exiting_world (snd (cleanup_processes exiting_world running_state)) =
     (Inr (), running_state\<lparr>trace :=
        [Print ''Cleaning up processes...'',
         Poll 1, Print ''Terminating helper process...'', Terminate 1, Wait 1 5,
         Poll 2, Print ''Terminating office process...'', Terminate 2, Wait 2 5,
         Print ''Cleaning up processes...'', Poll 1, Poll 2]\<rparr>)"
proof -
  let ?st1 = "running_state\<lparr>trace :=
        [Print ''Cleaning up processes...'',
         Poll 1, Print ''Terminating helper process...'', Terminate 1, Wait 1 5,
         Poll 2, Print ''Terminating office process...'', Terminate 2, Wait 2 5]\<rparr>"
  have first: "cleanup_processes exiting_world running_state = (Inr (), ?st1)"
    by (simp add: cleanup_processes_def terminate_block_def Let_def emit_def
        running_state_def initial_state_def exiting_world_def demo_world_def)
  have exited: "\<forall>h tr. helper_process running_state = Some h \<or> office_process running_state = Some h \<longrightarrow>
      poll exiting_world (trace ?st1 @ tr) h \<noteq> None"
    by (auto simp add: running_state_def exiting_world_def)
  from cleanup_processes_twice [OF first exited] first show ?thesis
    by (simp add: running_state_def)
qed

text \<open>
  Claim C4. Let \<open>h\<close> be an owned process that is reported alive, in a world where
  \<open>wait\<close> returns or raises \<open>TimeoutExpired\<close>, and let \<open>t\<close> say whether the wait on
  \<open>h\<close> times out. Then \<open>cleanup_processes\<close> returns normally, and the calls it makes on
  \<open>h\<close> are \<open>terminate\<close>, \<open>wait(timeout=5)\<close> and, exactly when \<open>t\<close> holds, \<open>kill\<close>.
\<close>

theorem cleanup_processes_escalation:
  assumes owned: "helper_process st = Some h \<or> office_process st = Some h"
    and distinct: "helper_process st \<noteq> office_process st"
    and alive: "\<forall>tr. poll w (trace st @ tr) h = None"
    and waits: "\<forall>tr h'. wait_ok (wait w (trace st @ tr) h' 5)"
    and outcome: "\<forall>tr. timed_out (wait w (trace st @ tr) h 5) = t"
  shows "fst (cleanup_processes w st) = Inr () \<and>
         filter (on_process h) (emitted st (snd (cleanup_processes w st))) =
           [Terminate h, Wait h 5] @ (if t then [Kill h] else []) \<and>
         (Kill h \<in> set (emitted st (snd (cleanup_processes w st))) \<longleftrightarrow> t)"
proof -
  let ?c = "Print ''Cleaning up processes...''"
  let ?mh = "''Terminating helper process...''"
  let ?mo = "''Terminating office process...''"
  let ?bh = "block_events w ?mh (helper_process st) (trace st @ [?c])"
  let ?bo = "block_events w ?mo (office_process st) (trace st @ [?c] @ ?bh)"
  let ?evs = "emitted st (snd (cleanup_processes w st))"
  note ok = cleanup_processes_ok [OF waits]
  have evs: "?evs = [?c] @ ?bh @ ?bo"
    unfolding ok by (simp only: snd_conv emitted_update)
  have flt: "filter (on_process h) ?evs = [Terminate h, Wait h 5] @ (if t then [Kill h] else [])"
  proof (cases "helper_process st = Some h")
    case True
    then have "office_process st \<noteq> Some h" using distinct by auto
    then have o: "filter (on_process h) ?bo = []" by (rule filter_block_other)
    have "poll w (trace st @ [?c]) h = None" using alive by blast
    from filter_block_self [OF this, of ?mh]
    have "filter (on_process h) ?bh = [Terminate h, Wait h 5] @ (if t then [Kill h] else [])"
      using True outcome by simp
    with o show ?thesis unfolding evs by simp
  next
    case False
    then have off: "office_process st = Some h" using owned by blast
    from False have b: "filter (on_process h) ?bh = []" by (rule filter_block_other)
    have "poll w (trace st @ [?c] @ ?bh) h = None" using alive by blast
    from filter_block_self [OF this, of ?mo]
    have "filter (on_process h) ?bo = [Terminate h, Wait h 5] @ (if t then [Kill h] else [])"
      using off outcome by simp
    with b show ?thesis unfolding evs by simp
  qed
  have "Kill h \<in> set ?evs \<longleftrightarrow> Kill h \<in> set (filter (on_process h) ?evs)"
    by simp
  also have "\<dots> \<longleftrightarrow> t"
    unfolding flt by simp
  finally have kill: "Kill h \<in> set ?evs \<longleftrightarrow> t" .
  from ok flt kill show ?thesis by simp
qed

theorem cleanup_processes_escalation_witness:
  "(helper_process running_state = Some 1 \<or> office_process running_state = Some 1) \<and>
   (helper_process running_state = Some 2 \<or> office_process running_state = Some 2) \<and>
   helper_process running_state \<noteq> office_process running_state \<and>
   (\<forall>tr h. poll stubborn_world (trace running_state @ tr) h = None) \<and>
   (\<forall>tr h'. wait_ok (wait stubborn_world (trace running_state @ tr) h' 5)) \<and>
   (\<forall>tr. timed_out (wait stubborn_world (trace running_state @ tr) 1 5) = True) \<and>
   (\<forall>tr. timed_out (wait stubborn_world (trace running_state @ tr) 2 5) = False) \<and>
   fst (cleanup_processes stubborn_world running_state) = Inr () \<and>
   filter (on_process 1) (emitted running_state (snd (cleanup_processes stubborn_world running_state))) =
     [Terminate 1, Wait 1 5, Kill 1] \<and>
   filter (on_process 2) (emitted running_state (snd (cleanup_processes stubborn_world running_state))) =
     [Terminate 2, Wait 2 5] \<and>
   Kill 1 \<in> set (emitted running_state (snd (cleanup_processes stubborn_world running_state))) \<and>
   Kill 2 \<notin> set (emitted running_state (snd (cleanup_processes stubborn_world running_state)))"
proof -
  have o1: "helper_process running_state = Some 1 \<or> office_process running_state = Some 1"
    and o2: "helper_process running_state = Some 2 \<or> office_process running_state = Some 2"
    and d: "helper_process running_state \<noteq> office_process running_state"
    by (simp_all add: running_state_def)
  have a: "\<forall>tr h. poll stubborn_world (trace running_state @ tr) h = None"
    and w: "\<forall>tr h'. wait_ok (wait stubborn_world (trace running_state @ tr) h' 5)"
    and t1: "\<forall>tr. timed_out (wait stubborn_world (trace running_state @ tr) 1 5) = True"
    and t2: "\<forall>tr. timed_out (wait stubborn_world (trace running_state @ tr) 2 5) = False"
    by (simp_all add: stubborn_world_def demo_world_def)
  from a have a1: "\<forall>tr. poll stubborn_world (trace running_state @ tr) 1 = None"
    and a2: "\<forall>tr. poll stubborn_world (trace running_state @ tr) 2 = None"
    by simp_all
  from cleanup_processes_escalation [OF o1 d a1 w t1]
    cleanup_processes_escalation [OF o2 d a2 w t2] o1 o2 d a w t1 t2
  show ?thesis by simp
qed

section \<open>Top-level orchestration\<close>




section \<open>Ownership\<close>

text \<open>
  Claim C9. A launch operation that finds its port bound leaves both handles as they
  were and spawns nothing, so a process that is known by its port only is never
  stored in a handle. \<open>cleanup_processes\<close> sends \<open>terminate\<close> and \<open>kill\<close> to the
  processes stored in \<open>helper_process\<close> and \<open>office_process\<close> and to no other. Each
  launch operation spawns at most one process, and each role has one handle variable:
  at most one process per role is owned.
\<close>

theorem preexisting_never_owned:
  "(fst (is_port_in_use w port st) = Inr True \<longrightarrow>
      office_process (snd (start_office w port st)) = office_process st \<and>
      helper_process (snd (start_office w port st)) = helper_process st \<and>
      filter is_Popen (emitted st (snd (start_office w port st))) = []) \<and>
   (fst (is_port_in_use w 8765 st) = Inr True \<longrightarrow>
      office_process (snd (start_helper w st)) = office_process st \<and>
      helper_process (snd (start_helper w st)) = helper_process st \<and>
      filter is_Popen (emitted st (snd (start_helper w st))) = []) \<and>
   (\<forall>e\<in>set (emitted st (snd (cleanup_processes w st))). is_signal e \<longrightarrow>
      (\<exists>h. (helper_process st = Some h \<or> office_process st = Some h) \<and>
           (e = Terminate h \<or> e = Kill h))) \<and>
   length (filter is_Popen (emitted st (snd (start_office w port st)))) \<le> 1 \<and>
   length (filter is_Popen (emitted st (snd (start_helper w st)))) \<le> 1"
proof -
  have o: "office_process (snd (start_office w port st)) = office_process st \<and>
      helper_process (snd (start_office w port st)) = helper_process st \<and>
      filter is_Popen (emitted st (snd (start_office w port st))) = []"
    if "fst (is_port_in_use w port st) = Inr True"
    unfolding start_office_bound [OF that] by (simp add: emitted_def)
  have h: "office_process (snd (start_helper w st)) = office_process st \<and>
      helper_process (snd (start_helper w st)) = helper_process st \<and>
      filter is_Popen (emitted st (snd (start_helper w st))) = []"
    if "fst (is_port_in_use w 8765 st) = Inr True"
    unfolding start_helper_bound [OF that] by (simp add: emitted_def)
  have no: "length (filter is_Popen (emitted st (snd (start_office w port st)))) \<le> 1"
    using start_office_shape [of w port st] at_most_one_Popen by blast
  have nh: "length (filter is_Popen (emitted st (snd (start_helper w st)))) \<le> 1"
  proof -
    obtain pre post where "trace (snd (start_helper w st)) = trace st @ pre @ post"
      and "filter is_Popen pre = []"
      and "post = [] \<or> (\<exists>args. post = [Popen args] \<or> post = [Popen args, Sleep 3])"
      using start_helper_shape [of w st] by blast
    then show ?thesis by (rule at_most_one_Popen)
  qed
  from o h no nh cleanup_processes_signals_owned [of st w] show ?thesis by blast
qed


theorem preexisting_never_owned_witness:
  "fst (is_port_in_use bound_world 2002 initial_state) = Inr True \<and>
   office_process (snd (start_office bound_world 2002 initial_state)) = None \<and>
   fst (is_port_in_use bound_world 8765 initial_state) = Inr True \<and>
   helper_process (snd (start_helper bound_world initial_state)) = None \<and>
   office_process (snd (startup bound_world initial_state)) = None \<and>
   helper_process (snd (startup bound_world initial_state)) = None \<and>
   filter is_signal (emitted (snd (startup bound_world initial_state))
     (snd (cleanup_processes bound_world (snd (startup bound_world initial_state))))) = [] \<and>
   helper_process running_state = Some 1 \<and>
   Terminate 1 \<in> set (emitted running_state (snd (cleanup_processes demo_world running_state))) \<and>
   is_signal (Terminate 1)"
proof -
  let ?S = "snd (startup bound_world initial_state)"
  have p1: "fst (is_port_in_use bound_world 2002 initial_state) = Inr True"
    and p2: "fst (is_port_in_use bound_world 8765 initial_state) = Inr True"
    by (simp_all add: is_port_in_use_def bound_world_def demo_world_def)
  have i: "office_process initial_state = None" "helper_process initial_state = None"
    by (simp_all add: initial_state_def)
  have so: "office_process ?S = None" and sh: "helper_process ?S = None"
    by (simp_all add: startup_def start_office_def start_helper_def start_mcp_server_def
        is_port_in_use_def emit_def bound_world_def demo_world_def initial_state_def Let_def)
  have r: "helper_process running_state = Some 1"
    by (simp add: running_state_def)
  have t: "Terminate 1 \<in> set (emitted running_state (snd (cleanup_processes demo_world running_state)))"
    by (simp add: cleanup_processes_def terminate_block_def Let_def emit_def emitted_def
        running_state_def initial_state_def demo_world_def)
  have a: "office_process (snd (start_office bound_world 2002 initial_state)) = None \<and>
      helper_process (snd (start_helper bound_world initial_state)) = None"
    using preexisting_never_owned [where w = bound_world and port = 2002 and st = initial_state]
      p1 p2 i by simp
  have b: "\<forall>e\<in>set (emitted ?S (snd (cleanup_processes bound_world ?S))). \<not> is_signal e"
    using preexisting_never_owned [where w = bound_world and port = 2002 and st = ?S] so sh
    by simp
  have c: "\<exists>h. (helper_process running_state = Some h \<or> office_process running_state = Some h) \<and>
      (Terminate 1 = Terminate h \<or> Terminate 1 = Kill h)"
    using preexisting_never_owned [where w = demo_world and port = 2002 and st = running_state] t
    by force
  from b have b': "filter is_signal (emitted ?S (snd (cleanup_processes bound_world ?S))) = []"
    by (simp only: filter_empty_conv)
  from p1 p2 a so sh b' r t show ?thesis by simp
qed

end
